theory Spec2Isabelle
  imports Main
begin

section \<open>Python strings\<close>

text \<open>
  A Python \<^verbatim>\<open>str\<close> is a sequence of Unicode code points. It is modelled as a list of
  natural numbers, one per code point, so that \<^verbatim>\<open>str.strip()\<close> sees the same
  characters as it does in Python (an Isabelle \<open>char\<close> is a byte). \<open>lit\<close> turns an
  ASCII literal of the source into such a list.
\<close>

type_synonym str = "nat list"

definition lit :: "string \<Rightarrow> str" where
  "lit s = map of_char s"

text \<open>
  \<^verbatim>\<open>str.isspace()\<close> of one code point, as CPython decides it: U+0009..U+000D,
  U+001C..U+0020, U+0085, U+00A0, U+1680, U+2000..U+200A, U+2028, U+2029, U+202F, U+205F
  and U+3000.
\<close>

definition isspace :: "nat \<Rightarrow> bool" where
  "isspace c \<longleftrightarrow>
     (9 \<le> c \<and> c \<le> 13) \<or> (28 \<le> c \<and> c \<le> 32) \<or> c = 133 \<or> c = 160 \<or> c = 5760 \<or>
     (8192 \<le> c \<and> c \<le> 8202) \<or> c = 8232 \<or> c = 8233 \<or> c = 8239 \<or> c = 8287 \<or> c = 12288"

text \<open>\<^verbatim>\<open>s.strip()\<close>: the whitespace at both ends is removed, the inside is kept.\<close>

definition strip :: "str \<Rightarrow> str" where
  "strip s = rev (dropWhile isspace (rev (dropWhile isspace s)))"

text \<open>\<^verbatim>\<open>sep.join(xs)\<close>: the separator stands between consecutive elements only.\<close>

fun join :: "str \<Rightarrow> str list \<Rightarrow> str" where
  "join sep [] = []"
| "join sep [x] = x"
| "join sep (x # y # ys) = x @ sep @ join sep (y # ys)"

text \<open>
  What an f-string writes for a value of type \<^verbatim>\<open>Optional[str]\<close>: the string itself, and
  the four letters \<^verbatim>\<open>None\<close> for \<^verbatim>\<open>None\<close>.
\<close>

fun format_optional :: "str option \<Rightarrow> str" where
  "format_optional None = lit ''None''"
| "format_optional (Some s) = s"


section \<open>Data model\<close>

text \<open>
  The objects of the remote service that the two scripts read. \<open>url_citation\<close> is the
  \<^verbatim>\<open>ann.url_citation\<close> of one annotation; its \<open>title\<close> is optional. \<open>message\<close> is a
  \<^verbatim>\<open>ThreadMessage\<close>, with the values of its text segments (\<^verbatim>\<open>t.text.value\<close>) and its
  annotations in order. \<open>run\<close> is the run handle; its status is the string the service
  reports.
\<close>

record url_citation =
  url :: str
  title :: "str option"

record message =
  msg_id :: str
  text_messages :: "str list"
  url_citation_annotations :: "url_citation list"

record run =
  run_id :: str
  status :: str
  last_error :: "str option"


section \<open>Console, file and collaborator events\<close>

text \<open>
  The messages given to \<^verbatim>\<open>log_with_timestamp\<close>. The source writes them in Japanese; each
  constructor stands for one message text and carries the values the f-string inserts.
  \<^item> \<open>NewAgentResponse\<close>: a new agent response was received (detector).
  \<^item> \<open>StillRunning status status_count\<close>: still running, with the status and the seconds
    elapsed (every tenth tick of the loop).
  \<^item> \<open>RunFinished status run_id\<close>: the run is over (after the loop).
  \<^item> \<open>RunFailed last_error\<close>: the run failed, with \<^verbatim>\<open>run.last_error\<close>.
  \<^item> \<open>FetchingFinalMessage\<close>, \<open>CreatingSummary\<close>, \<open>AgentDeleted\<close>: the three milestones
    after the loop.
\<close>

datatype log_message =
    NewAgentResponse
  | StillRunning str nat
  | RunFinished str str
  | RunFailed "str option"
  | FetchingFinalMessage
  | CreatingSummary
  | AgentDeleted

text \<open>
  One line group on the console: \<open>Stamped m\<close> is what \<^verbatim>\<open>log_with_timestamp(m)\<close> prints
  (the time of day in front of it is read from the clock and is not part of the model),
  \<open>Plain s\<close> is what \<^verbatim>\<open>print(s)\<close> prints.
\<close>

datatype line = Stamped log_message | Plain str

text \<open>
  Everything the scripts do that can be observed from outside, in the order it happens:
  the sleep, the calls to the remote service with their arguments, console output, and
  the file written by \<^verbatim>\<open>create_research_summary\<close> (path and whole content).
\<close>

datatype event =
    Sleep nat
  | RunsCreate str str
  | RunsGet str str
  | GetLastMessageByRole str
  | Console line
  | FileWrite str str
  | DeleteAgent str

fun prints :: "event list \<Rightarrow> line list" where
  "prints [] = []"
| "prints (Console l # es) = l # prints es"
| "prints (e # es) = prints es"


section \<open>The Delta-Response Detector\<close>

text \<open>
  \<^verbatim>\<open>fetch_and_print_new_agent_response\<close> of \<^verbatim>\<open>deep-research-sync.py\<close> (lines 17 to 36).
  \<open>response\<close> is what \<^verbatim>\<open>get_last_message_by_role\<close> returned for the thread: \<open>None\<close>
  when the thread has no agent message. The result is the returned identifier and the
  events of the call, the fetch first.
\<close>

definition citation_line :: "url_citation \<Rightarrow> line" where
  "citation_line ann =
     Plain (lit ''URL Citation: ['' @ format_optional (title ann) @ lit '']('' @ url ann @ lit '')'')"

definition fetch_and_print_new_agent_response ::
  "str \<Rightarrow> message option \<Rightarrow> str option \<Rightarrow> str option \<times> event list" where
  "fetch_and_print_new_agent_response thread_id response last_message_id =
     (case response of
        None \<Rightarrow> (last_message_id, [GetLastMessageByRole thread_id])
      | Some r \<Rightarrow>
          if Some (msg_id r) = last_message_id
          then (last_message_id, [GetLastMessageByRole thread_id])
          else (Some (msg_id r),
                [GetLastMessageByRole thread_id,
                 Console (Stamped NewAgentResponse),
                 Console (Plain (10 # lit ''Agent response:'')),
                 Console (Plain (join [10] (text_messages r)))]
                @ map (\<lambda>ann. Console (citation_line ann)) (url_citation_annotations r)))"

text \<open>The same function of \<^verbatim>\<open>deep-research-async.py\<close> (lines 54 to 75).\<close>

definition citation_line_async :: "url_citation \<Rightarrow> line" where
  "citation_line_async ann =
     Plain (lit ''URL Citation: ['' @ format_optional (title ann) @ lit '']('' @ url ann @ lit '')'')"

definition fetch_and_print_new_agent_response_async ::
  "str \<Rightarrow> message option \<Rightarrow> str option \<Rightarrow> str option \<times> event list" where
  "fetch_and_print_new_agent_response_async thread_id response last_message_id =
     (case response of
        None \<Rightarrow> (last_message_id, [GetLastMessageByRole thread_id])
      | Some r \<Rightarrow>
          if Some (msg_id r) = last_message_id
          then (last_message_id, [GetLastMessageByRole thread_id])
          else (Some (msg_id r),
                [GetLastMessageByRole thread_id,
                 Console (Stamped NewAgentResponse),
                 Console (Plain (10 # lit ''Agent response:'')),
                 Console (Plain (join [10] (text_messages r)))]
                @ map (\<lambda>ann. Console (citation_line_async ann)) (url_citation_annotations r)))"


section \<open>The Summary Writer\<close>

text \<open>
  \<^verbatim>\<open>create_research_summary\<close> of \<^verbatim>\<open>deep-research-sync.py\<close> (lines 39 to 63).

  \<open>or_else\<close> is Python's \<^verbatim>\<open>title or url\<close> on an optional string: the title when it is a
  non-empty string, the url when the title is \<^verbatim>\<open>None\<close> or the empty string (both are false
  in Python).
\<close>

fun or_else :: "str option \<Rightarrow> str \<Rightarrow> str" where
  "or_else None d = d"
| "or_else (Some s) d = (if s = [] then d else s)"

text \<open>Line 49: the text segments, each stripped, joined with two newlines.\<close>

definition text_summary :: "message \<Rightarrow> str" where
  "text_summary message = join [10, 10] (map strip (text_messages message))"

text \<open>
  Lines 55 to 61, the loop over the annotations with its set \<^verbatim>\<open>seen_urls\<close>: the
  \<open>(title, url)\<close> of every iteration that reaches \<^verbatim>\<open>fp.write\<close>, in order.
\<close>

fun reference_entries :: "url_citation list \<Rightarrow> str set \<Rightarrow> (str \<times> str) list" where
  "reference_entries [] seen_urls = []"
| "reference_entries (ann # anns) seen_urls =
     (let u = url ann;
          t = or_else (title ann) u
      in if u \<notin> seen_urls
         then (t, u) # reference_entries anns (insert u seen_urls)
         else reference_entries anns seen_urls)"

text \<open>Line 60: the string one such iteration writes.\<close>

fun reference_item :: "str \<times> str \<Rightarrow> str" where
  "reference_item (t, u) = lit ''- ['' @ t @ lit '']('' @ u @ lit '')'' @ [10]"

text \<open>
  The strings given to \<^verbatim>\<open>fp.write\<close>, in order (lines 49 to 61). The file is opened with
  mode \<^verbatim>\<open>"w"\<close>, so its content afterwards is their concatenation.
\<close>

definition summary_writes :: "message \<Rightarrow> str list" where
  "summary_writes message =
     text_summary message #
     (if url_citation_annotations message \<noteq> []
      then ([10, 10] @ lit ''## References'' @ [10]) #
           map reference_item (reference_entries (url_citation_annotations message) {})
      else [])"

definition create_research_summary :: "message option \<Rightarrow> str \<Rightarrow> event list" where
  "create_research_summary message filepath =
     (case message of
        None \<Rightarrow>
          [Console (Plain (lit ''No message content provided, cannot create research summary.''))]
      | Some m \<Rightarrow>
          [FileWrite filepath (concat (summary_writes m)),
           Console (Plain (lit ''Research summary written to '' @ [39] @ filepath @ [39, 46]))])"

text \<open>The same function of \<^verbatim>\<open>deep-research-async.py\<close> (lines 78 to 102).\<close>

definition text_summary_async :: "message \<Rightarrow> str" where
  "text_summary_async message = join [10, 10] (map strip (text_messages message))"

fun reference_entries_async :: "url_citation list \<Rightarrow> str set \<Rightarrow> (str \<times> str) list" where
  "reference_entries_async [] seen_urls = []"
| "reference_entries_async (ann # anns) seen_urls =
     (let u = url ann;
          t = or_else (title ann) u
      in if u \<notin> seen_urls
         then (t, u) # reference_entries_async anns (insert u seen_urls)
         else reference_entries_async anns seen_urls)"

fun reference_item_async :: "str \<times> str \<Rightarrow> str" where
  "reference_item_async (t, u) = lit ''- ['' @ t @ lit '']('' @ u @ lit '')'' @ [10]"

definition summary_writes_async :: "message \<Rightarrow> str list" where
  "summary_writes_async message =
     text_summary_async message #
     (if url_citation_annotations message \<noteq> []
      then ([10, 10] @ lit ''## References'' @ [10]) #
           map reference_item_async
             (reference_entries_async (url_citation_annotations message) {})
      else [])"

definition create_research_summary_async :: "message option \<Rightarrow> str \<Rightarrow> event list" where
  "create_research_summary_async message filepath =
     (case message of
        None \<Rightarrow>
          [Console (Plain (lit ''No message content provided, cannot create research summary.''))]
      | Some m \<Rightarrow>
          [FileWrite filepath (concat (summary_writes_async m)),
           Console (Plain (lit ''Research summary written to '' @ [39] @ filepath @ [39, 46]))])"

text \<open>
  Properties of a written text used below. \<open>contains needle s\<close>: the string \<open>needle\<close>
  occurs in \<open>s\<close>. \<open>newline_run k s\<close>: the length of the longest run of consecutive newline
  characters in \<open>s\<close>, when \<open>k\<close> newlines precede \<open>s\<close>; a run of \<open>n + 1\<close> newlines is \<open>n\<close> empty
  lines in a row.
\<close>

fun starts_with :: "str \<Rightarrow> str \<Rightarrow> bool" where
  "starts_with [] s = True"
| "starts_with (c # cs) [] = False"
| "starts_with (c # cs) (d # ds) = (c = d \<and> starts_with cs ds)"

fun contains :: "str \<Rightarrow> str \<Rightarrow> bool" where
  "contains needle [] = (needle = [])"
| "contains needle (c # cs) = (starts_with needle (c # cs) \<or> contains needle cs)"

fun newline_run :: "nat \<Rightarrow> str \<Rightarrow> nat" where
  "newline_run k [] = k"
| "newline_run k (c # cs) =
     (if c = 10 then newline_run (Suc k) cs else max k (newline_run 0 cs))"

section \<open>The Run Status Poller and what follows it\<close>

text \<open>
  The remote service is a script of responses: \<open>rs\<close> holds what the successive calls of
  \<^verbatim>\<open>runs.get\<close> return, \<open>ms\<close> what the successive calls of \<^verbatim>\<open>get_last_message_by_role\<close>
  return. A call that finds its list empty never returns, and the result is \<open>None\<close>.
  The remote calls themselves do not raise in this model.

  The loop of \<^verbatim>\<open>deep-research-sync.py\<close> (lines 158 to 173), started with the run, the
  last message identifier and the tick count. It returns the last run fetched, the last
  message identifier, the tick count, the message responses not yet consumed, and the
  events of each iteration, one list per iteration.
\<close>

definition loop_condition :: "run \<Rightarrow> bool" where
  "loop_condition run \<longleftrightarrow> status run = lit ''queued'' \<or> status run = lit ''in_progress''"

definition status_line :: "run \<Rightarrow> nat \<Rightarrow> line" where
  "status_line run status_count =
     (if status_count mod 10 = 0
      then Stamped (StillRunning (status run) status_count)
      else Plain (lit ''Run status: '' @ status run))"

fun poll_loop ::
  "str \<Rightarrow> run \<Rightarrow> str option \<Rightarrow> nat \<Rightarrow> run list \<Rightarrow> message option list \<Rightarrow>
   (run \<times> str option \<times> nat \<times> message option list \<times> event list list) option" where
  "poll_loop thread_id run last_message_id status_count (run' # rs) (response # ms) =
     (if loop_condition run then
        (let (last_message_id', out) =
               fetch_and_print_new_agent_response thread_id response last_message_id;
             status_count' = status_count + 1;
             tick = [Sleep 1, RunsGet thread_id (run_id run)] @ out
                    @ [Console (status_line run' status_count')]
         in case poll_loop thread_id run' last_message_id' status_count' rs ms of
              None \<Rightarrow> None
            | Some (run'', l, c, ms', ticks) \<Rightarrow> Some (run'', l, c, ms', tick # ticks))
      else Some (run, last_message_id, status_count, response # ms, []))"
| "poll_loop thread_id run last_message_id status_count rs ms =
     (if loop_condition run then None
      else Some (run, last_message_id, status_count, ms, []))"

text \<open>
  Lines 175 to 192: what the script does with the run the loop ended on and with the
  final message, \<open>final_message\<close> being what the last \<^verbatim>\<open>get_last_message_by_role\<close> returned.
\<close>

definition terminal_handling :: "str \<Rightarrow> str \<Rightarrow> run \<Rightarrow> message option \<Rightarrow> event list" where
  "terminal_handling agent_id thread_id run final_message =
     [Console (Stamped (RunFinished (status run) (run_id run)))]
     @ (if status run = lit ''failed''
        then [Console (Stamped (RunFailed (last_error run)))] else [])
     @ [Console (Stamped FetchingFinalMessage), GetLastMessageByRole thread_id]
     @ (case final_message of
          None \<Rightarrow> []
        | Some m \<Rightarrow> Console (Stamped CreatingSummary)
                   # create_research_summary (Some m) (lit ''research_summary.md''))
     @ [DeleteAgent agent_id, Console (Stamped AgentDeleted)]"

text \<open>
  Lines 154 to 192, from the creation of the run, which returns \<open>run0\<close>, to the end of
  the script.
\<close>

definition poll_and_summarize ::
  "str \<Rightarrow> str \<Rightarrow> run \<Rightarrow> run list \<Rightarrow> message option list \<Rightarrow> event list option" where
  "poll_and_summarize agent_id thread_id run0 rs ms =
     (case poll_loop thread_id run0 None 0 rs ms of
        None \<Rightarrow> None
      | Some (run, last_message_id, status_count, ms', ticks) \<Rightarrow>
          (case ms' of
             [] \<Rightarrow> None
           | final_message # _ \<Rightarrow>
               Some (RunsCreate thread_id agent_id # concat ticks
                     @ terminal_handling agent_id thread_id run final_message)))"

text \<open>The same part of \<^verbatim>\<open>main\<close> in \<^verbatim>\<open>deep-research-async.py\<close> (lines 160 to 198).\<close>

definition loop_condition_async :: "run \<Rightarrow> bool" where
  "loop_condition_async run \<longleftrightarrow>
     status run = lit ''queued'' \<or> status run = lit ''in_progress''"

definition status_line_async :: "run \<Rightarrow> nat \<Rightarrow> line" where
  "status_line_async run status_count =
     (if status_count mod 10 = 0
      then Stamped (StillRunning (status run) status_count)
      else Plain (lit ''Run status: '' @ status run))"

fun poll_loop_async ::
  "str \<Rightarrow> run \<Rightarrow> str option \<Rightarrow> nat \<Rightarrow> run list \<Rightarrow> message option list \<Rightarrow>
   (run \<times> str option \<times> nat \<times> message option list \<times> event list list) option" where
  "poll_loop_async thread_id run last_message_id status_count (run' # rs) (response # ms) =
     (if loop_condition_async run then
        (let (last_message_id', out) =
               fetch_and_print_new_agent_response_async thread_id response last_message_id;
             status_count' = status_count + 1;
             tick = [Sleep 1, RunsGet thread_id (run_id run)] @ out
                    @ [Console (status_line_async run' status_count')]
         in case poll_loop_async thread_id run' last_message_id' status_count' rs ms of
              None \<Rightarrow> None
            | Some (run'', l, c, ms', ticks) \<Rightarrow> Some (run'', l, c, ms', tick # ticks))
      else Some (run, last_message_id, status_count, response # ms, []))"
| "poll_loop_async thread_id run last_message_id status_count rs ms =
     (if loop_condition_async run then None
      else Some (run, last_message_id, status_count, ms, []))"

definition terminal_handling_async ::
  "str \<Rightarrow> str \<Rightarrow> run \<Rightarrow> message option \<Rightarrow> event list" where
  "terminal_handling_async agent_id thread_id run final_message =
     [Console (Stamped (RunFinished (status run) (run_id run)))]
     @ (if status run = lit ''failed''
        then [Console (Stamped (RunFailed (last_error run)))] else [])
     @ [Console (Stamped FetchingFinalMessage), GetLastMessageByRole thread_id]
     @ (case final_message of
          None \<Rightarrow> []
        | Some m \<Rightarrow> Console (Stamped CreatingSummary)
                   # create_research_summary_async (Some m) (lit ''research_summary.md''))
     @ [DeleteAgent agent_id, Console (Stamped AgentDeleted)]"

definition poll_and_summarize_async ::
  "str \<Rightarrow> str \<Rightarrow> run \<Rightarrow> run list \<Rightarrow> message option list \<Rightarrow> event list option" where
  "poll_and_summarize_async agent_id thread_id run0 rs ms =
     (case poll_loop_async thread_id run0 None 0 rs ms of
        None \<Rightarrow> None
      | Some (run, last_message_id, status_count, ms', ticks) \<Rightarrow>
          (case ms' of
             [] \<Rightarrow> None
           | final_message # _ \<Rightarrow>
               Some (RunsCreate thread_id agent_id # concat ticks
                     @ terminal_handling_async agent_id thread_id run final_message)))"

declare poll_loop.simps [simp del]
declare poll_loop_async.simps [simp del]

text \<open>The heartbeat lines of a trace: the timestamped "still running" line of the loop.\<close>

fun is_heartbeat :: "event \<Rightarrow> bool" where
  "is_heartbeat (Console (Stamped (StillRunning s n))) = True"
| "is_heartbeat e = False"

text \<open>
  What a trace shows of the three things an invocation can be observed by: its console
  output is \<open>prints\<close>; \<open>file_writes\<close> are the files written, with their content;
  \<open>collaborator_calls\<close> are the calls to the remote service, with their arguments.
\<close>

fun file_writes :: "event list \<Rightarrow> (str \<times> str) list" where
  "file_writes [] = []"
| "file_writes (FileWrite filepath content # es) = (filepath, content) # file_writes es"
| "file_writes (e # es) = file_writes es"

fun collaborator_calls :: "event list \<Rightarrow> event list" where
  "collaborator_calls [] = []"
| "collaborator_calls (Sleep n # es) = collaborator_calls es"
| "collaborator_calls (Console l # es) = collaborator_calls es"
| "collaborator_calls (FileWrite filepath content # es) = collaborator_calls es"
| "collaborator_calls (e # es) = e # collaborator_calls es"

section \<open>Facts about the detector\<close>

lemma lit_simps: "lit [] = []" "lit (c # cs) = of_char c # lit cs"
  by (simp_all add: lit_def)

lemma prints_append: "prints (xs @ ys) = prints xs @ prints ys"
  by (induction xs rule: prints.induct) simp_all

lemma prints_map_Console: "prints (map (\<lambda>x. Console (f x)) xs) = map f xs"
  by (induction xs) simp_all

lemma citation_line_async_eq: "citation_line_async = citation_line"
  by (simp add: fun_eq_iff citation_line_async_def citation_line_def)

lemma detector_async_eq:
  "fetch_and_print_new_agent_response_async = fetch_and_print_new_agent_response"
  by (simp add: fun_eq_iff fetch_and_print_new_agent_response_async_def
      fetch_and_print_new_agent_response_def citation_line_async_eq split: option.split)

lemma detector_noop:
  assumes "response = None \<or> (\<exists>r. response = Some r \<and> Some (msg_id r) = last_message_id)"
  shows "fetch_and_print_new_agent_response thread_id response last_message_id =
           (last_message_id, [GetLastMessageByRole thread_id])"
  using assms by (auto simp: fetch_and_print_new_agent_response_def)

lemma detector_new:
  assumes "Some (msg_id r) \<noteq> last_message_id"
  shows "fst (fetch_and_print_new_agent_response thread_id (Some r) last_message_id) =
           Some (msg_id r)"
    and "prints (snd (fetch_and_print_new_agent_response thread_id (Some r) last_message_id)) =
           [Stamped NewAgentResponse, Plain (10 # lit ''Agent response:''),
            Plain (join [10] (text_messages r))]
           @ map citation_line (url_citation_annotations r)"
  using assms
  by (simp_all add: fetch_and_print_new_agent_response_def prints_append prints_map_Console)

lemma detector_fst_Some:
  "fst (fetch_and_print_new_agent_response thread_id (Some r) last_message_id) = Some (msg_id r)"
  by (simp add: fetch_and_print_new_agent_response_def)

text \<open>
  C1. Whatever the thread and the last-seen identifier (which may be \<open>None\<close>), in either
  script: when the fetched latest agent message is absent, or has the last-seen
  identifier, the detector returns the last-seen identifier unchanged and prints nothing;
  otherwise it prints the log line, the header, the text segments joined with one newline
  and one citation line per annotation, in order, and returns the identifier of the new
  message. Hence a second fetch that returns a message with the same identifier prints
  nothing and returns the same identifier again.
\<close>

theorem detector_delta:
  assumes "detector = fetch_and_print_new_agent_response \<or>
           detector = fetch_and_print_new_agent_response_async"
  shows "(response = None \<or> (\<exists>r. response = Some r \<and> Some (msg_id r) = last_message_id) \<longrightarrow>
           fst (detector thread_id response last_message_id) = last_message_id \<and>
           prints (snd (detector thread_id response last_message_id)) = [])
       \<and> (\<forall>r. response = Some r \<and> Some (msg_id r) \<noteq> last_message_id \<longrightarrow>
           fst (detector thread_id response last_message_id) = Some (msg_id r) \<and>
           prints (snd (detector thread_id response last_message_id)) =
             [Stamped NewAgentResponse, Plain (10 # lit ''Agent response:''),
              Plain (join [10] (text_messages r))]
             @ map citation_line (url_citation_annotations r))
       \<and> (\<forall>r r'. response = Some r \<and> msg_id r' = msg_id r \<longrightarrow>
           fst (detector thread_id (Some r') (fst (detector thread_id response last_message_id)))
             = fst (detector thread_id response last_message_id) \<and>
           prints (snd (detector thread_id (Some r')
             (fst (detector thread_id response last_message_id)))) = [])"
proof -
  have d: "detector = fetch_and_print_new_agent_response"
    using assms by (auto simp: detector_async_eq)
  have "response = None \<or> (\<exists>r. response = Some r \<and> Some (msg_id r) = last_message_id) \<longrightarrow>
           fst (detector thread_id response last_message_id) = last_message_id \<and>
           prints (snd (detector thread_id response last_message_id)) = []"
    by (simp add: d detector_noop)
  moreover have "\<forall>r. response = Some r \<and> Some (msg_id r) \<noteq> last_message_id \<longrightarrow>
           fst (detector thread_id response last_message_id) = Some (msg_id r) \<and>
           prints (snd (detector thread_id response last_message_id)) =
             [Stamped NewAgentResponse, Plain (10 # lit ''Agent response:''),
              Plain (join [10] (text_messages r))]
             @ map citation_line (url_citation_annotations r)"
    by (simp add: d detector_new)
  moreover have "\<forall>r r'. response = Some r \<and> msg_id r' = msg_id r \<longrightarrow>
           fst (detector thread_id (Some r') (fst (detector thread_id response last_message_id)))
             = fst (detector thread_id response last_message_id) \<and>
           prints (snd (detector thread_id (Some r')
             (fst (detector thread_id response last_message_id)))) = []"
    by (simp add: d detector_fst_Some detector_noop)
  ultimately show ?thesis by blast
qed

theorem detector_delta_witness:
  "fst (fetch_and_print_new_agent_response_async (lit ''t1'') None (Some (lit ''m0'')))
     = Some (lit ''m0'')
   \<and> prints (snd (fetch_and_print_new_agent_response_async (lit ''t1'') None (Some (lit ''m0''))))
     = []
   \<and> fst (fetch_and_print_new_agent_response (lit ''t1'')
        (Some \<lparr>msg_id = lit ''m1'', text_messages = [lit ''a'', lit ''b''],
               url_citation_annotations = [\<lparr>url = lit ''u'', title = Some (lit ''t'')\<rparr>]\<rparr>)
        None) = Some (lit ''m1'')
   \<and> prints (snd (fetch_and_print_new_agent_response (lit ''t1'')
        (Some \<lparr>msg_id = lit ''m1'', text_messages = [lit ''a'', lit ''b''],
               url_citation_annotations = [\<lparr>url = lit ''u'', title = Some (lit ''t'')\<rparr>]\<rparr>)
        None))
     = [Stamped NewAgentResponse, Plain (10 # lit ''Agent response:''),
        Plain (lit ''a'' @ [10] @ lit ''b''), Plain (lit ''URL Citation: [t](u)'')]"
  using detector_delta [of fetch_and_print_new_agent_response_async None "Some (lit ''m0'')"
      "lit ''t1''"]
    detector_delta [of fetch_and_print_new_agent_response
      "Some \<lparr>msg_id = lit ''m1'', text_messages = [lit ''a'', lit ''b''],
             url_citation_annotations = [\<lparr>url = lit ''u'', title = Some (lit ''t'')\<rparr>]\<rparr>"
      None "lit ''t1''"]
  by (simp add: citation_line_def lit_simps)

text \<open>
  C9. During live streaming the citation line is built from the title as it is: an
  annotation without a title is printed with the word \<^verbatim>\<open>None\<close> where the claim expects its
  url. The summary writer of the same file does fall back to the url.
\<close>

theorem streaming_citation_without_title:
  "citation_line \<lparr>url = lit ''http://a.example'', title = None\<rparr>
     = Plain (lit ''URL Citation: [None](http://a.example)'')
   \<and> citation_line_async \<lparr>url = lit ''http://a.example'', title = None\<rparr>
     = Plain (lit ''URL Citation: [None](http://a.example)'')
   \<and> citation_line \<lparr>url = lit ''http://a.example'', title = None\<rparr>
     \<noteq> Plain (lit ''URL Citation: [http://a.example](http://a.example)'')"
  by (simp add: citation_line_def citation_line_async_def lit_simps)



section \<open>Facts about the summary writer\<close>

lemma reference_entries_async_eq: "reference_entries_async anns seen = reference_entries anns seen"
  by (induction anns arbitrary: seen) (simp_all add: Let_def)

lemma reference_entries_snoc:
  "reference_entries (anns @ [a]) seen =
     reference_entries anns seen @
     (if url a \<in> seen \<union> url ` set anns then [] else [(or_else (title a) (url a), url a)])"
  by (induction anns arbitrary: seen) (auto simp: Let_def)

lemma reference_entries_index:
  "reference_entries anns seen =
     map (\<lambda>i. (or_else (title (anns ! i)) (url (anns ! i)), url (anns ! i)))
       (filter (\<lambda>i. url (anns ! i) \<notin> seen \<union> url ` set (take i anns)) [0..<length anns])"
proof (induction anns rule: rev_induct)
  case Nil
  show ?case by simp
next
  case (snoc a anns)
  have f: "filter (\<lambda>i. url ((anns @ [a]) ! i) \<notin> seen \<union> url ` set (take i (anns @ [a])))
             [0..<length anns]
         = filter (\<lambda>i. url (anns ! i) \<notin> seen \<union> url ` set (take i anns)) [0..<length anns]"
    by (rule filter_cong) (simp_all add: nth_append)
  have m: "map (\<lambda>i. (or_else (title ((anns @ [a]) ! i)) (url ((anns @ [a]) ! i)),
                      url ((anns @ [a]) ! i)))
             (filter (\<lambda>i. url (anns ! i) \<notin> seen \<union> url ` set (take i anns)) [0..<length anns])
         = map (\<lambda>i. (or_else (title (anns ! i)) (url (anns ! i)), url (anns ! i)))
             (filter (\<lambda>i. url (anns ! i) \<notin> seen \<union> url ` set (take i anns)) [0..<length anns])"
    by (rule map_cong) (simp_all add: nth_append)
  have u: "[0..<length (anns @ [a])] = [0..<length anns] @ [length anns]"
    by simp
  show ?case
    unfolding reference_entries_snoc u filter_append map_append f m snoc.IH
    by simp
qed

lemma reference_entries_urls:
  "snd ` set (reference_entries anns seen) = url ` set anns - seen"
  by (induction anns arbitrary: seen) (auto simp: Let_def)

lemma reference_entries_distinct: "distinct (map snd (reference_entries anns seen))"
proof (induction anns arbitrary: seen)
  case Nil
  show ?case by simp
next
  case (Cons a anns)
  have "url a \<notin> snd ` set (reference_entries anns (insert (url a) seen))"
    by (simp add: reference_entries_urls)
  with Cons show ?case by (simp add: Let_def)
qed

lemma reference_entries_length: "length (reference_entries anns seen) \<le> length anns"
  by (induction anns arbitrary: seen) (auto simp: Let_def le_SucI)

lemma strip_decompose:
  "\<exists>pre post. s = pre @ strip s @ post \<and> (\<forall>c\<in>set pre. isspace c) \<and> (\<forall>c\<in>set post. isspace c)"
proof -
  let ?t = "dropWhile isspace s"
  have 1: "s = takeWhile isspace s @ ?t" by simp
  have 2: "rev ?t = takeWhile isspace (rev ?t) @ dropWhile isspace (rev ?t)" by simp
  have "?t = rev (dropWhile isspace (rev ?t)) @ rev (takeWhile isspace (rev ?t))"
    using arg_cong [OF 2, of rev] by (simp del: takeWhile_dropWhile_id)
  then have "s = takeWhile isspace s @ strip s @ rev (takeWhile isspace (rev ?t))"
    using 1 by (simp add: strip_def)
  moreover have "\<forall>c\<in>set (takeWhile isspace s). isspace c"
    by (auto dest: set_takeWhileD)
  moreover have "\<forall>c\<in>set (rev (takeWhile isspace (rev ?t))). isspace c"
    by (auto dest: set_takeWhileD)
  ultimately show ?thesis by blast
qed

lemma last_dropWhile: "dropWhile P xs \<noteq> [] \<Longrightarrow> last (dropWhile P xs) = last xs"
  by (induction xs) (auto split: if_splits)

lemma strip_ends:
  assumes "strip s \<noteq> []"
  shows "\<not> isspace (hd (strip s))" and "\<not> isspace (last (strip s))"
proof -
  let ?t = "dropWhile isspace s"
  let ?u = "dropWhile isspace (rev ?t)"
  have u: "?u \<noteq> []" using assms unfolding strip_def rev_is_Nil_conv .
  then have "\<not> isspace (hd ?u)" by (rule hd_dropWhile)
  then show "\<not> isspace (last (strip s))" using u by (simp add: strip_def last_rev)
  have t: "?t \<noteq> []"
  proof
    assume "?t = []"
    then have "?u = []" by (simp only: rev.simps dropWhile.simps)
    with u show False by blast
  qed
  then have ht: "\<not> isspace (hd ?t)" by (rule hd_dropWhile)
  have "hd (strip s) = last ?u" using u by (simp add: strip_def hd_rev)
  also have "\<dots> = last (rev ?t)" using u by (rule last_dropWhile)
  also have "\<dots> = hd ?t" using t by (simp add: last_rev)
  finally show "\<not> isspace (hd (strip s))" using ht by simp
qed

lemma strip_nonempty_iff: "strip s \<noteq> [] \<longleftrightarrow> (\<exists>c\<in>set s. \<not> isspace c)"
proof -
  have "strip s = [] \<longleftrightarrow> dropWhile isspace s = []"
  proof
    assume "strip s = []"
    then have a: "\<forall>c\<in>set (rev (dropWhile isspace s)). isspace c"
      unfolding strip_def rev_is_Nil_conv dropWhile_eq_Nil_conv .
    show "dropWhile isspace s = []"
    proof (rule ccontr)
      assume n: "dropWhile isspace s \<noteq> []"
      then have "\<not> isspace (hd (dropWhile isspace s))" by (rule hd_dropWhile)
      moreover have "hd (dropWhile isspace s) \<in> set (rev (dropWhile isspace s))"
        using n by simp
      ultimately show False using a by blast
    qed
  next
    assume "dropWhile isspace s = []"
    then show "strip s = []" by (simp only: strip_def rev.simps dropWhile.simps)
  qed
  then show ?thesis by (simp only: dropWhile_eq_Nil_conv) blast
qed

lemma join_nonempty:
  "ts \<noteq> [] \<Longrightarrow> \<forall>t\<in>set ts. t \<noteq> [] \<Longrightarrow>
     join sep ts \<noteq> [] \<and> hd (join sep ts) = hd (hd ts) \<and> last (join sep ts) = last (last ts)"
  by (induction sep ts rule: join.induct) auto

lemma join_Nil_iff: "\<forall>t\<in>set ts. t \<noteq> [] \<Longrightarrow> join sep ts = [] \<longleftrightarrow> ts = []"
  by (induction sep ts rule: join.induct) auto

lemma newline_run_append:
  "a \<noteq> [] \<Longrightarrow> last a \<noteq> 10 \<Longrightarrow>
     newline_run k (a @ b) = max (newline_run k a) (newline_run 0 b)"
proof (induction a arbitrary: k)
  case Nil
  then show ?case by simp
next
  case (Cons c a)
  show ?case
  proof (cases "a = []")
    case True
    with Cons.prems show ?thesis by simp
  next
    case False
    with Cons.prems have "last a \<noteq> 10" by simp
    with False Cons.IH show ?thesis by (simp add: max.assoc)
  qed
qed

lemma newline_run_start:
  "b \<noteq> [] \<Longrightarrow> hd b \<noteq> 10 \<Longrightarrow> newline_run k b = max k (newline_run 0 b)"
  by (cases b) simp_all

lemma newline_run_join:
  assumes "\<forall>t\<in>set ts. t \<noteq> [] \<and> hd t \<noteq> 10 \<and> last t \<noteq> 10 \<and> newline_run 0 t \<le> 2"
  shows "newline_run 0 (join [10, 10] ts) \<le> 2"
  using assms
proof (induction "[10::nat, 10]" ts rule: join.induct)
  case 1
  show ?case by simp
next
  case (2 x)
  then show ?case by simp
next
  case (3 x y ys)
  let ?r = "join [10, 10] (y # ys)"
  from 3 have r: "newline_run 0 ?r \<le> 2" by simp
  from 3 have x: "x \<noteq> []" "last x \<noteq> 10" "newline_run 0 x \<le> 2" by simp_all
  have "y # ys \<noteq> []" "\<forall>t\<in>set (y # ys). t \<noteq> []" using 3 by simp_all
  from join_nonempty [OF this, of "[10, 10]"] 3
  have r0: "?r \<noteq> []" "hd ?r \<noteq> 10" by simp_all
  have "newline_run 0 (x @ [10, 10] @ ?r) = max (newline_run 0 x) (newline_run 2 ?r)"
    using x by (simp add: newline_run_append numeral_2_eq_2)
  also have "newline_run 2 ?r = max 2 (newline_run 0 ?r)"
    using r0 by (rule newline_run_start)
  finally show ?case using r x by simp
qed

lemma starts_with_append: "starts_with n (n @ b)"
  by (induction n) simp_all

lemma contains_append: "contains n (a @ n @ b)"
proof (induction a)
  case Nil
  have "contains n (n @ b)"
  proof (cases "n @ b")
    case Nil
    then show ?thesis by simp
  next
    case (Cons c cs)
    have "starts_with n (n @ b)" by (rule starts_with_append)
    then show ?thesis unfolding Cons by simp
  qed
  then show ?case by simp
next
  case (Cons c a)
  then show ?case by simp
qed

lemma reference_entries_async_fun_eq: "reference_entries_async = reference_entries"
  by (simp add: fun_eq_iff reference_entries_async_eq)

lemma reference_item_async_eq: "reference_item_async = reference_item"
  by (simp add: fun_eq_iff)

lemma text_summary_async_eq: "text_summary_async = text_summary"
  by (simp add: fun_eq_iff text_summary_async_def text_summary_def)

lemma summary_writes_async_eq: "summary_writes_async = summary_writes"
  by (simp add: fun_eq_iff summary_writes_async_def summary_writes_def
      reference_entries_async_fun_eq reference_item_async_eq text_summary_async_eq)

lemma create_research_summary_async_eq:
  "create_research_summary_async = create_research_summary"
  by (simp add: fun_eq_iff create_research_summary_async_def create_research_summary_def
      summary_writes_async_eq split: option.split)

text \<open>
  C2, as the code has it. In either script the entries the writer's loop writes are the
  annotations at the positions where a url occurs for the first time, in that order: so
  every distinct url occurs exactly once, there are never more entries than annotations,
  and the title written with a url is the one of its first annotation, replaced by the
  url when that title is absent or the empty string.
\<close>

theorem deduplicated_references:
  assumes "dedup = reference_entries \<or> dedup = reference_entries_async"
  shows "dedup anns {} =
           map (\<lambda>i. (or_else (title (anns ! i)) (url (anns ! i)), url (anns ! i)))
             (filter (\<lambda>i. url (anns ! i) \<notin> url ` set (take i anns)) [0..<length anns])
       \<and> distinct (map snd (dedup anns {}))
       \<and> set (map snd (dedup anns {})) = url ` set anns
       \<and> length (dedup anns {}) \<le> length anns"
proof -
  have d: "dedup = reference_entries"
    using assms by (auto simp: reference_entries_async_fun_eq)
  have "reference_entries anns {} =
           map (\<lambda>i. (or_else (title (anns ! i)) (url (anns ! i)), url (anns ! i)))
             (filter (\<lambda>i. url (anns ! i) \<notin> url ` set (take i anns)) [0..<length anns])"
    using reference_entries_index [of anns "{}"] by simp
  moreover have "set (map snd (reference_entries anns {})) = url ` set anns"
    using reference_entries_urls [of anns "{}"] by simp
  ultimately show ?thesis
    unfolding d using reference_entries_distinct [of anns "{}"]
      reference_entries_length [of anns "{}"] by blast
qed

theorem deduplicated_references_witness:
  "reference_entries_async
     [\<lparr>url = lit ''u'', title = Some (lit ''first'')\<rparr>, \<lparr>url = lit ''v'', title = None\<rparr>,
      \<lparr>url = lit ''u'', title = Some (lit ''second'')\<rparr>, \<lparr>url = lit ''w'', title = Some []\<rparr>] {}
   = [(lit ''first'', lit ''u''), (lit ''v'', lit ''v''), (lit ''w'', lit ''w'')]
   \<and> distinct (map snd (reference_entries_async
     [\<lparr>url = lit ''u'', title = Some (lit ''first'')\<rparr>, \<lparr>url = lit ''v'', title = None\<rparr>,
      \<lparr>url = lit ''u'', title = Some (lit ''second'')\<rparr>, \<lparr>url = lit ''w'', title = Some []\<rparr>] {}))"
  using deduplicated_references [of reference_entries_async
     "[\<lparr>url = lit ''u'', title = Some (lit ''first'')\<rparr>, \<lparr>url = lit ''v'', title = None\<rparr>,
      \<lparr>url = lit ''u'', title = Some (lit ''second'')\<rparr>, \<lparr>url = lit ''w'', title = Some []\<rparr>]"]
  by (simp add: lit_simps Let_def)

text \<open>
  The claim as stated fails for a title that is present but empty: the first-seen title is
  the empty string, and the entry written carries the url in its place.
\<close>

theorem empty_title_counterexample:
  "reference_entries [\<lparr>url = lit ''u'', title = Some []\<rparr>] {} = [(lit ''u'', lit ''u'')]
   \<and> reference_entries [\<lparr>url = lit ''u'', title = Some []\<rparr>] {} \<noteq> [([], lit ''u'')]"
  by (simp add: lit_simps Let_def)

lemma isspace_10: "isspace 10"
  by (simp add: isspace_def)

text \<open>
  C6, as the code has it. In either script the file written for a message is the body,
  followed by nothing when the message has no annotation, and otherwise by the heading
  \<^verbatim>\<open>## References\<close> (after a blank line) and exactly one item \<^verbatim>\<open>- [title](url)\<close> per
  deduplicated entry. So, when the body does not itself contain \<^verbatim>\<open>## References\<close>, the
  file contains the heading exactly when the annotation list is not empty.
\<close>

theorem references_section:
  assumes "writer = create_research_summary \<or> writer = create_research_summary_async"
  shows "\<exists>content.
           writer (Some message) filepath =
             [FileWrite filepath content,
              Console (Plain (lit ''Research summary written to '' @ [39] @ filepath @ [39, 46]))]
         \<and> content = text_summary message @
             (if url_citation_annotations message = [] then []
              else [10, 10] @ lit ''## References'' @ [10] @
                   concat (map (\<lambda>(t, u). lit ''- ['' @ t @ lit '']('' @ u @ lit '')'' @ [10])
                     (reference_entries (url_citation_annotations message) {})))
         \<and> (\<not> contains (lit ''## References'') (text_summary message) \<longrightarrow>
              (contains (lit ''## References'') content
                 \<longleftrightarrow> url_citation_annotations message \<noteq> []))"
proof -
  have w: "writer = create_research_summary"
    using assms by (auto simp: create_research_summary_async_eq)
  let ?items = "concat (map (\<lambda>(t, u). lit ''- ['' @ t @ lit '']('' @ u @ lit '')'' @ [10])
                     (reference_entries (url_citation_annotations message) {}))"
  let ?content = "concat (summary_writes message)"
  have i: "reference_item = (\<lambda>(t, u). lit ''- ['' @ t @ lit '']('' @ u @ lit '')'' @ [10])"
    by (simp add: fun_eq_iff)
  have c: "?content = text_summary message @
             (if url_citation_annotations message = [] then []
              else [10, 10] @ lit ''## References'' @ [10] @ ?items)"
    by (simp add: summary_writes_def i)
  have "contains (lit ''## References'') ?content"
    if "url_citation_annotations message \<noteq> []"
  proof -
    have "?content = (text_summary message @ [10, 10]) @ lit ''## References'' @ ([10] @ ?items)"
      using that c by simp
    then show ?thesis by (simp only: contains_append)
  qed
  moreover have "?content = text_summary message" if "url_citation_annotations message = []"
    using that c by simp
  ultimately have "\<not> contains (lit ''## References'') (text_summary message) \<longrightarrow>
              (contains (lit ''## References'') ?content
                 \<longleftrightarrow> url_citation_annotations message \<noteq> [])"
    by metis
  moreover have "writer (Some message) filepath =
             [FileWrite filepath ?content,
              Console (Plain (lit ''Research summary written to '' @ [39] @ filepath @ [39, 46]))]"
    by (simp add: w create_research_summary_def)
  ultimately show ?thesis using c by blast
qed

theorem references_section_witness:
  "create_research_summary_async
     (Some \<lparr>msg_id = lit ''m'', text_messages = [lit ''a''],
            url_citation_annotations = [\<lparr>url = lit ''u'', title = Some (lit ''t'')\<rparr>]\<rparr>) (lit ''f'')
   = [FileWrite (lit ''f'') (lit ''a'' @ [10, 10] @ lit ''## References'' @ [10] @ lit ''- [t](u)'' @ [10]),
      Console (Plain (lit ''Research summary written to '' @ [39] @ lit ''f'' @ [39, 46]))]
   \<and> \<not> contains (lit ''## References'') (lit ''a'')
   \<and> contains (lit ''## References'')
        (lit ''a'' @ [10, 10] @ lit ''## References'' @ [10] @ lit ''- [t](u)'' @ [10])"
  using references_section [of create_research_summary_async
      "\<lparr>msg_id = lit ''m'', text_messages = [lit ''a''],
        url_citation_annotations = [\<lparr>url = lit ''u'', title = Some (lit ''t'')\<rparr>]\<rparr>" "lit ''f''"]
  by (simp add: text_summary_def strip_def isspace_def lit_simps Let_def)

text \<open>
  The claim as stated fails when the text of the message contains the heading: the file
  then contains \<^verbatim>\<open>## References\<close> although the message has no annotation.
\<close>

theorem heading_in_body_counterexample:
  "contains (lit ''## References'')
     (concat (summary_writes \<lparr>msg_id = lit ''m'', text_messages = [lit ''## References''],
                              url_citation_annotations = []\<rparr>))
   \<and> url_citation_annotations \<lparr>msg_id = lit ''m'', text_messages = [lit ''## References''],
                              url_citation_annotations = []\<rparr> = []"
  by (simp add: summary_writes_def text_summary_def strip_def isspace_def lit_simps)

text \<open>
  C7, as the code has it. In either script the body is the text segments, each with the
  whitespace at its two ends removed and nothing else changed, joined with two newlines.
  When every segment has a character that is not whitespace, the body neither starts nor
  ends with whitespace; when moreover no stripped segment has more than two newlines in a
  row, neither has the body (never more than one empty line in a row).
\<close>

theorem summary_body:
  assumes "body = text_summary \<or> body = text_summary_async"
  shows "body message = join [10, 10] (map strip (text_messages message))
       \<and> (\<forall>s\<in>set (text_messages message).
            (\<exists>pre post. s = pre @ strip s @ post \<and>
               (\<forall>c\<in>set pre. isspace c) \<and> (\<forall>c\<in>set post. isspace c)) \<and>
            (strip s \<noteq> [] \<longrightarrow> \<not> isspace (hd (strip s)) \<and> \<not> isspace (last (strip s))))
       \<and> ((\<forall>s\<in>set (text_messages message). \<exists>c\<in>set s. \<not> isspace c) \<longrightarrow>
            (body message = [] \<longleftrightarrow> text_messages message = []) \<and>
            (body message \<noteq> [] \<longrightarrow>
               \<not> isspace (hd (body message)) \<and> \<not> isspace (last (body message))))
       \<and> ((\<forall>s\<in>set (text_messages message).
              (\<exists>c\<in>set s. \<not> isspace c) \<and> newline_run 0 (strip s) \<le> 2) \<longrightarrow>
            newline_run 0 (body message) \<le> 2)"
proof -
  have b: "body message = join [10, 10] (map strip (text_messages message))"
    using assms by (auto simp: text_summary_async_def text_summary_def)
  let ?ts = "map strip (text_messages message)"
  have 2: "\<forall>s\<in>set (text_messages message).
            (\<exists>pre post. s = pre @ strip s @ post \<and>
               (\<forall>c\<in>set pre. isspace c) \<and> (\<forall>c\<in>set post. isspace c)) \<and>
            (strip s \<noteq> [] \<longrightarrow> \<not> isspace (hd (strip s)) \<and> \<not> isspace (last (strip s)))"
    using strip_decompose strip_ends by blast
  have 3: "(body message = [] \<longleftrightarrow> text_messages message = []) \<and>
            (body message \<noteq> [] \<longrightarrow>
               \<not> isspace (hd (body message)) \<and> \<not> isspace (last (body message)))"
    if h: "\<forall>s\<in>set (text_messages message). \<exists>c\<in>set s. \<not> isspace c"
  proof -
    have ne: "\<forall>t\<in>set ?ts. t \<noteq> []"
      using h by (simp add: strip_nonempty_iff)
    then have e: "body message = [] \<longleftrightarrow> text_messages message = []"
      unfolding b using join_Nil_iff [of ?ts "[10, 10]"] by simp
    have "\<not> isspace (hd (body message)) \<and> \<not> isspace (last (body message))"
      if n: "body message \<noteq> []"
    proof -
      from n e have tn: "?ts \<noteq> []" by simp
      from join_nonempty [OF tn ne, of "[10, 10]"]
      have "hd (body message) = hd (hd ?ts)" "last (body message) = last (last ?ts)"
        unfolding b by simp_all
      moreover have "hd ?ts \<in> set ?ts" "last ?ts \<in> set ?ts"
        using tn by (rule hd_in_set, rule last_in_set)
      then obtain s1 s2 where "hd ?ts = strip s1" "strip s1 \<noteq> []"
          "last ?ts = strip s2" "strip s2 \<noteq> []"
        using ne by (metis (no_types, lifting) imageE list.set_map)
      ultimately show ?thesis using strip_ends by metis
    qed
    with e show ?thesis by blast
  qed
  have 4: "newline_run 0 (body message) \<le> 2"
    if h: "\<forall>s\<in>set (text_messages message).
              (\<exists>c\<in>set s. \<not> isspace c) \<and> newline_run 0 (strip s) \<le> 2"
  proof -
    have "\<forall>t\<in>set ?ts. t \<noteq> [] \<and> hd t \<noteq> 10 \<and> last t \<noteq> 10 \<and> newline_run 0 t \<le> 2"
    proof
      fix t assume "t \<in> set ?ts"
      then obtain s where s: "t = strip s" "s \<in> set (text_messages message)" by auto
      with h have "strip s \<noteq> []" "newline_run 0 (strip s) \<le> 2"
        by (simp_all add: strip_nonempty_iff)
      moreover from this strip_ends [of s]
      have "hd (strip s) \<noteq> 10" "last (strip s) \<noteq> 10"
        using isspace_10 by metis+
      ultimately show "t \<noteq> [] \<and> hd t \<noteq> 10 \<and> last t \<noteq> 10 \<and> newline_run 0 t \<le> 2"
        using s by simp
    qed
    then show ?thesis unfolding b by (rule newline_run_join)
  qed
  from b 2 3 4 show ?thesis by blast
qed

theorem summary_body_witness:
  "text_summary_async \<lparr>msg_id = lit ''m'', text_messages = [32 # lit ''a'' @ [10], lit ''b'' @ [12288]],
                        url_citation_annotations = []\<rparr> = lit ''a'' @ [10, 10] @ lit ''b''
   \<and> \<not> isspace 97 \<and> \<not> isspace 98 \<and> newline_run 0 (lit ''a'' @ [10, 10] @ lit ''b'') \<le> 2"
  using summary_body [of text_summary_async
    "\<lparr>msg_id = lit ''m'', text_messages = [32 # lit ''a'' @ [10], lit ''b'' @ [12288]],
      url_citation_annotations = []\<rparr>"]
  by (simp add: strip_def isspace_def lit_simps)

text \<open>
  The claim as stated fails when a segment is empty or blank: an empty first segment
  leaves the body starting with the separator, and an empty segment in the middle leaves
  three empty lines between two paragraphs.
\<close>

theorem blank_segment_counterexample:
  "text_summary \<lparr>msg_id = lit ''m'', text_messages = [[], lit ''a''],
                  url_citation_annotations = []\<rparr> = [10, 10, 97]
   \<and> isspace (hd [10, 10, 97])
   \<and> text_summary \<lparr>msg_id = lit ''m'', text_messages = [lit ''a'', [], lit ''b''],
                  url_citation_annotations = []\<rparr> = [97, 10, 10, 10, 10, 98]
   \<and> newline_run 0 [97, 10, 10, 10, 10, 98] = 4"
  by (simp add: text_summary_def strip_def isspace_def lit_simps)


section \<open>Facts about the poller\<close>

lemma loop_condition_async_eq: "loop_condition_async = loop_condition"
  by (simp add: fun_eq_iff loop_condition_async_def loop_condition_def)

lemma status_line_async_eq: "status_line_async = status_line"
  by (simp add: fun_eq_iff status_line_async_def status_line_def)

lemma poll_loop_async_eq:
  "poll_loop_async thread_id run last_message_id status_count rs ms =
     poll_loop thread_id run last_message_id status_count rs ms"
  by (induction thread_id run last_message_id status_count rs ms rule: poll_loop.induct)
    (simp_all add: poll_loop.simps poll_loop_async.simps loop_condition_async_eq
      status_line_async_eq detector_async_eq split: prod.split)

lemma poll_loop_terminal:
  "\<not> loop_condition run \<Longrightarrow>
     poll_loop thread_id run last_message_id status_count rs ms =
       Some (run, last_message_id, status_count, ms, [])"
  by (cases rs; cases ms) (simp_all add: poll_loop.simps)

lemma detector_events:
  "\<exists>out. snd (fetch_and_print_new_agent_response thread_id response last_message_id) =
     GetLastMessageByRole thread_id # map Console out
     \<and> (\<forall>l\<in>set out. \<not> is_heartbeat (Console l))"
proof (cases "response = None \<or> (\<exists>r. response = Some r \<and> Some (msg_id r) = last_message_id)")
  case True
  then have "snd (fetch_and_print_new_agent_response thread_id response last_message_id) =
     GetLastMessageByRole thread_id # map Console []"
    by (simp add: detector_noop)
  then show ?thesis by (metis empty_iff list.set(1))
next
  case False
  then obtain r where r: "response = Some r" "Some (msg_id r) \<noteq> last_message_id" by auto
  let ?out = "[Stamped NewAgentResponse, Plain (10 # lit ''Agent response:''),
       Plain (join [10] (text_messages r))] @ map citation_line (url_citation_annotations r)"
  have "snd (fetch_and_print_new_agent_response thread_id response last_message_id) =
     GetLastMessageByRole thread_id # map Console ?out"
    using r by (simp add: fetch_and_print_new_agent_response_def)
  moreover have "\<forall>l\<in>set ?out. \<not> is_heartbeat (Console l)"
    by (auto simp: citation_line_def)
  ultimately show ?thesis by blast
qed

lemma poll_loop_step:
  assumes "loop_condition run"
  shows "poll_loop thread_id run last_message_id status_count (run' # rs) (response # ms) =
     (case poll_loop thread_id run'
             (fst (fetch_and_print_new_agent_response thread_id response last_message_id))
             (Suc status_count) rs ms of
        None \<Rightarrow> None
      | Some (run'', l, c, ms', ticks) \<Rightarrow>
          Some (run'', l, c, ms',
            ([Sleep 1, RunsGet thread_id (run_id run)]
             @ snd (fetch_and_print_new_agent_response thread_id response last_message_id)
             @ [Console (status_line run' (Suc status_count))]) # ticks))"
  using assms by (cases "fetch_and_print_new_agent_response thread_id response last_message_id") (simp add: poll_loop.simps split: option.split)

lemma poll_loop_ticks:
  assumes "loop_condition run" "\<forall>r\<in>set pre. loop_condition r" "\<not> loop_condition t"
    "length pre < length ms"
  shows "\<exists>last' ticks.
     poll_loop thread_id run last_message_id status_count (pre @ t # rest) ms =
       Some (t, last', status_count + Suc (length pre), drop (Suc (length pre)) ms, ticks)
     \<and> length ticks = Suc (length pre)
     \<and> (\<forall>k<Suc (length pre). \<exists>out.
           ticks ! k = Sleep 1 # RunsGet thread_id (run_id ((run # pre) ! k))
             # GetLastMessageByRole thread_id # map Console out
             @ [Console (status_line ((pre @ [t]) ! k) (status_count + Suc k))]
           \<and> (\<forall>l\<in>set out. \<not> is_heartbeat (Console l)))"
  using assms
proof (induction pre arbitrary: run last_message_id status_count ms)
  case Nil
  then obtain response ms' where ms: "ms = response # ms'" by (cases ms) auto
  let ?d = "fetch_and_print_new_agent_response thread_id response last_message_id"
  obtain out where out: "snd ?d = GetLastMessageByRole thread_id # map Console out"
    "\<forall>l\<in>set out. \<not> is_heartbeat (Console l)"
    using detector_events by blast
  have "poll_loop thread_id run last_message_id status_count ([] @ t # rest) ms =
       Some (t, fst ?d, status_count + Suc 0, drop (Suc 0) ms,
         [Sleep 1 # RunsGet thread_id (run_id run) # GetLastMessageByRole thread_id
            # map Console out @ [Console (status_line t (Suc status_count))]])"
    using Nil by (simp add: ms poll_loop_step poll_loop_terminal out)
  with out(2) show ?case by auto
next
  case (Cons p pre)
  then obtain response ms' where ms: "ms = response # ms'" by (cases ms) auto
  let ?d = "fetch_and_print_new_agent_response thread_id response last_message_id"
  obtain out where out: "snd ?d = GetLastMessageByRole thread_id # map Console out"
    "\<forall>l\<in>set out. \<not> is_heartbeat (Console l)"
    using detector_events by blast
  from Cons.prems ms have "loop_condition p" "\<forall>r\<in>set pre. loop_condition r"
    "length pre < length ms'" by simp_all
  from Cons.IH [OF this(1,2) Cons.prems(3) this(3), of "fst ?d" "Suc status_count"]
  obtain last' ticks where
    r: "poll_loop thread_id p (fst ?d) (Suc status_count) (pre @ t # rest) ms' =
          Some (t, last', Suc status_count + Suc (length pre), drop (Suc (length pre)) ms', ticks)"
    and l: "length ticks = Suc (length pre)"
    and s: "\<forall>k<Suc (length pre). \<exists>out.
           ticks ! k = Sleep 1 # RunsGet thread_id (run_id ((p # pre) ! k))
             # GetLastMessageByRole thread_id # map Console out
             @ [Console (status_line ((pre @ [t]) ! k) (Suc status_count + Suc k))]
           \<and> (\<forall>l\<in>set out. \<not> is_heartbeat (Console l))"
    by blast
  let ?tick = "Sleep 1 # RunsGet thread_id (run_id run) # GetLastMessageByRole thread_id
            # map Console out @ [Console (status_line p (Suc status_count))]"
  have e: "poll_loop thread_id run last_message_id status_count ((p # pre) @ t # rest) ms =
       Some (t, last', status_count + Suc (length (p # pre)), drop (Suc (length (p # pre))) ms,
         ?tick # ticks)"
    using Cons.prems(1) by (simp add: ms poll_loop_step r out)
  have "\<exists>out. (?tick # ticks) ! k = Sleep 1 # RunsGet thread_id (run_id ((run # p # pre) ! k))
             # GetLastMessageByRole thread_id # map Console out
             @ [Console (status_line (((p # pre) @ [t]) ! k) (status_count + Suc k))]
           \<and> (\<forall>l\<in>set out. \<not> is_heartbeat (Console l))"
    if "k < Suc (length (p # pre))" for k
  proof (cases k)
    case 0
    with out(2) show ?thesis by auto
  next
    case (Suc j)
    with that have "j < Suc (length pre)" by simp
    with s Suc show ?thesis by simp
  qed
  with e l show ?case by auto
qed

lemma heartbeat_step:
  "(Suc c) div 10 = c div 10 + (if Suc c mod 10 = 0 then 1 else 0)"
  by presburger

lemma poll_loop_heartbeats:
  "poll_loop thread_id run last_message_id status_count rs ms = Some (run', last', c, ms', ticks)
   \<Longrightarrow> status_count \<le> c
     \<and> length (filter is_heartbeat (concat ticks)) + status_count div 10 = c div 10"
proof (induction thread_id run last_message_id status_count rs ms arbitrary: ticks
    rule: poll_loop.induct)
  case (1 thread_id run last_message_id status_count p rs response ms)
  show ?case
  proof (cases "loop_condition run")
    case False
    with 1(2) show ?thesis by (simp add: poll_loop_terminal)
  next
    case True
    let ?d = "fetch_and_print_new_agent_response thread_id response last_message_id"
    obtain out where out: "snd ?d = GetLastMessageByRole thread_id # map Console out"
      "\<forall>l\<in>set out. \<not> is_heartbeat (Console l)"
      using detector_events by blast
    from 1(2) True obtain ticks' where
      r: "poll_loop thread_id p (fst ?d) (Suc status_count) rs ms = Some (run', last', c, ms', ticks')"
      and t: "ticks = ([Sleep 1, RunsGet thread_id (run_id run)] @ snd ?d
             @ [Console (status_line p (Suc status_count))]) # ticks'"
      by (auto simp: poll_loop_step split: option.splits)
    have "Suc status_count \<le> c \<and>
       length (filter is_heartbeat (concat ticks')) + Suc status_count div 10 = c div 10"
      using 1(1) [OF True refl prod.collapse refl refl, of ticks'] r by simp
    moreover have "filter is_heartbeat (map Console out) = []"
      using out(2) by (simp add: filter_empty_conv)
    then have "length (filter is_heartbeat (concat ticks)) =
       (if Suc status_count mod 10 = 0 then 1 else 0) + length (filter is_heartbeat (concat ticks'))"
      by (simp add: t out status_line_def)
    ultimately show ?thesis using heartbeat_step [of status_count] by simp
  qed
qed (simp_all add: poll_loop.simps split: if_splits)

lemma poll_loop_async_fun_eq: "poll_loop_async = poll_loop"
  by (simp add: fun_eq_iff poll_loop_async_eq)

lemma terminal_handling_async_eq: "terminal_handling_async = terminal_handling"
  by (simp add: fun_eq_iff terminal_handling_async_def terminal_handling_def
      create_research_summary_async_eq split: option.split)

lemma poll_and_summarize_async_eq: "poll_and_summarize_async = poll_and_summarize"
  by (simp add: fun_eq_iff poll_and_summarize_async_def poll_and_summarize_def
      poll_loop_async_fun_eq terminal_handling_async_eq
      split: option.split prod.split list.split)

lemma last_tick_line: "last (a # b # c # map Console out @ [e]) = e"
  by simp

lemma heartbeat_of_tick:
  assumes "\<forall>l\<in>set out. \<not> is_heartbeat (Console l)"
  shows "filter is_heartbeat
           (Sleep 1 # RunsGet thread_id r # GetLastMessageByRole thread_id # map Console out
            @ [Console (status_line run k)])
         = (if k mod 10 = 0 then [Console (Stamped (StillRunning (status run) k))] else [])"
proof -
  have "filter is_heartbeat (map Console out) = []"
    using assms by (simp add: filter_empty_conv)
  then show ?thesis by (simp add: status_line_def)
qed

text \<open>
  C3. Take a polling execution of exactly \<open>N\<close> ticks, in either script: the loop starts on
  a run that is queued or in progress, the first \<open>N - 1\<close> statuses fetched (\<open>pre\<close>) are
  not terminal and the \<open>N\<close>-th (\<open>t\<close>) is. Then the loop returns after \<open>N\<close> ticks; the line
  that ends tick \<open>k\<close> is the timestamped heartbeat when \<open>k\<close> is a multiple of 10 and the
  plain \<^verbatim>\<open>Run status:\<close> line otherwise; a tick holds a heartbeat only then, and the
  whole execution holds exactly \<open>N div 10\<close> heartbeats. This holds for every \<open>N \<ge> 1\<close>, so
  for \<open>N \<ge> 10\<close>.
\<close>

theorem heartbeat_every_tenth_tick:
  assumes "loop = poll_loop \<or> loop = poll_loop_async"
    and "loop_condition run0" and "\<forall>r\<in>set pre. loop_condition r" and "\<not> loop_condition t"
    and "length pre < length ms" and "N = Suc (length pre)"
  shows "\<exists>seen ticks.
     loop thread_id run0 None 0 (pre @ t # rest) ms = Some (t, seen, N, drop N ms, ticks)
     \<and> length ticks = N
     \<and> (\<forall>k\<in>{1..N}.
          last (ticks ! (k - 1)) =
            Console (if k mod 10 = 0
                     then Stamped (StillRunning (status ((pre @ [t]) ! (k - 1))) k)
                     else Plain (lit ''Run status: '' @ status ((pre @ [t]) ! (k - 1))))
          \<and> filter is_heartbeat (ticks ! (k - 1)) =
            (if k mod 10 = 0
             then [Console (Stamped (StillRunning (status ((pre @ [t]) ! (k - 1))) k))]
             else []))
     \<and> length (filter is_heartbeat (concat ticks)) = N div 10"
proof -
  have l: "loop = poll_loop"
    using assms(1) by (auto simp: poll_loop_async_fun_eq)
  from poll_loop_ticks [OF assms(2-5), of thread_id None 0 rest]
  obtain seen ticks where
    r: "poll_loop thread_id run0 None 0 (pre @ t # rest) ms = Some (t, seen, N, drop N ms, ticks)"
    and n: "length ticks = N"
    and s: "\<forall>k<N. \<exists>out.
           ticks ! k = Sleep 1 # RunsGet thread_id (run_id ((run0 # pre) ! k))
             # GetLastMessageByRole thread_id # map Console out
             @ [Console (status_line ((pre @ [t]) ! k) (Suc k))]
           \<and> (\<forall>l\<in>set out. \<not> is_heartbeat (Console l))"
    unfolding assms(6) by auto
  have "last (ticks ! (k - 1)) =
            Console (if k mod 10 = 0
                     then Stamped (StillRunning (status ((pre @ [t]) ! (k - 1))) k)
                     else Plain (lit ''Run status: '' @ status ((pre @ [t]) ! (k - 1))))
          \<and> filter is_heartbeat (ticks ! (k - 1)) =
            (if k mod 10 = 0
             then [Console (Stamped (StillRunning (status ((pre @ [t]) ! (k - 1))) k))]
             else [])"
    if "k \<in> {1..N}" for k
  proof -
    from that have k: "k - 1 < N" "Suc (k - 1) = k" by auto
    with s obtain out where
      o: "ticks ! (k - 1) = Sleep 1 # RunsGet thread_id (run_id ((run0 # pre) ! (k - 1)))
             # GetLastMessageByRole thread_id # map Console out
             @ [Console (status_line ((pre @ [t]) ! (k - 1)) k)]"
      and h: "\<forall>l\<in>set out. \<not> is_heartbeat (Console l)"
      by metis
    have "last (ticks ! (k - 1)) = Console (status_line ((pre @ [t]) ! (k - 1)) k)"
      unfolding o by (rule last_tick_line)
    moreover have "filter is_heartbeat (ticks ! (k - 1)) =
            (if k mod 10 = 0
             then [Console (Stamped (StillRunning (status ((pre @ [t]) ! (k - 1))) k))]
             else [])"
      unfolding o using h by (rule heartbeat_of_tick)
    ultimately show ?thesis by (simp add: status_line_def)
  qed
  moreover have "length (filter is_heartbeat (concat ticks)) = N div 10"
    using poll_loop_heartbeats [OF r] by simp
  ultimately show ?thesis using r n unfolding l by blast
qed

theorem heartbeat_every_tenth_tick_witness:
  "\<exists>seen ticks.
     poll_loop_async (lit ''th'') \<lparr>run_id = lit ''r'', status = lit ''queued'', last_error = None\<rparr>
       None 0
       (replicate 9 \<lparr>run_id = lit ''r'', status = lit ''in_progress'', last_error = None\<rparr>
        @ [\<lparr>run_id = lit ''r'', status = lit ''completed'', last_error = None\<rparr>])
       (replicate 10 None)
     = Some (\<lparr>run_id = lit ''r'', status = lit ''completed'', last_error = None\<rparr>, seen, 10, [],
             ticks)
     \<and> length ticks = 10
     \<and> last (ticks ! 9) = Console (Stamped (StillRunning (lit ''completed'') 10))
     \<and> last (ticks ! 0) = Console (Plain (lit ''Run status: in_progress''))
     \<and> length (filter is_heartbeat (concat ticks)) = 1"
proof -
  let ?q = "\<lparr>run_id = lit ''r'', status = lit ''queued'', last_error = None\<rparr>"
  let ?p = "\<lparr>run_id = lit ''r'', status = lit ''in_progress'', last_error = None\<rparr>"
  let ?c = "\<lparr>run_id = lit ''r'', status = lit ''completed'', last_error = None\<rparr>"
  have h1: "poll_loop_async = poll_loop \<or> poll_loop_async = poll_loop_async" by simp
  have h2: "loop_condition ?q" by (simp add: loop_condition_def lit_simps)
  have h3: "\<forall>r\<in>set (replicate 9 ?p). loop_condition r"
    by (simp add: loop_condition_def lit_simps)
  have h4: "\<not> loop_condition ?c" by (simp add: loop_condition_def lit_simps)
  have h5: "length (replicate 9 ?p) < length (replicate 10 (None :: message option))" by simp
  have h6: "(10::nat) = Suc (length (replicate 9 ?p))" by simp
  from heartbeat_every_tenth_tick [OF h1 h2 h3 h4 h5 h6, of "lit ''th''" "[]"]
  obtain seen ticks where
    r: "poll_loop_async (lit ''th'') ?q None 0 (replicate 9 ?p @ [?c]) (replicate 10 None)
          = Some (?c, seen, 10, drop 10 (replicate 10 None), ticks)"
    and n: "length ticks = 10"
    and s: "\<forall>k\<in>{1..10}.
          last (ticks ! (k - 1)) =
            Console (if k mod 10 = 0
                     then Stamped (StillRunning (status ((replicate 9 ?p @ [?c]) ! (k - 1))) k)
                     else Plain (lit ''Run status: '' @ status ((replicate 9 ?p @ [?c]) ! (k - 1))))
          \<and> filter is_heartbeat (ticks ! (k - 1)) =
            (if k mod 10 = 0
             then [Console (Stamped (StillRunning (status ((replicate 9 ?p @ [?c]) ! (k - 1))) k))]
             else [])"
    and c: "length (filter is_heartbeat (concat ticks)) = 10 div 10"
    by blast
  have "(10::nat) \<in> {1..10}" "(1::nat) \<in> {1..10}" by simp_all
  from s [rule_format, OF this(1)] s [rule_format, OF this(2)]
  have "last (ticks ! 9) = Console (Stamped (StillRunning (lit ''completed'') 10))"
    "last (ticks ! 0) = Console (Plain (lit ''Run status: in_progress''))"
    by (simp_all add: nth_append lit_simps)
  with r n c show ?thesis by simp
qed


section \<open>The end of the loop and the terminal handling\<close>

text \<open>
  C4, as the code has it. In either script, when the \<open>N\<close>-th status fetched is the first
  one that is neither queued nor in progress, the loop returns with that run after exactly
  \<open>N\<close> iterations, each made of one sleep, one fetch of the run, one call of the detector
  (its fetch and its prints) and one status or heartbeat line, in this order. So after
  the fetch that returned the terminal status there is no further sleep and no further
  fetch of the run; the iteration that made this fetch is completed by its call of the
  detector and its status line, which shows the terminal status.
\<close>

theorem loop_ends_with_terminal_tick:
  assumes "loop = poll_loop \<or> loop = poll_loop_async"
    and "loop_condition run0" and "\<forall>r\<in>set pre. loop_condition r" and "\<not> loop_condition t"
    and "length pre < length ms" and "N = Suc (length pre)"
  shows "\<exists>seen ticks.
     loop thread_id run0 None 0 (pre @ t # rest) ms = Some (t, seen, N, drop N ms, ticks)
     \<and> length ticks = N
     \<and> (\<forall>k<N. \<exists>out.
           ticks ! k = Sleep 1 # RunsGet thread_id (run_id ((run0 # pre) ! k))
             # GetLastMessageByRole thread_id # map Console out
             @ [Console (status_line ((pre @ [t]) ! k) (Suc k))])
     \<and> (\<exists>out.
           ticks ! (N - 1) = Sleep 1 # RunsGet thread_id (run_id (last (run0 # pre)))
             # GetLastMessageByRole thread_id # map Console out @ [Console (status_line t N)])"
proof -
  have l: "loop = poll_loop"
    using assms(1) by (auto simp: poll_loop_async_fun_eq)
  from poll_loop_ticks [OF assms(2-5), of thread_id None 0 rest]
  obtain seen ticks where
    r: "poll_loop thread_id run0 None 0 (pre @ t # rest) ms = Some (t, seen, N, drop N ms, ticks)"
    and n: "length ticks = N"
    and s: "\<forall>k<N. \<exists>out.
           ticks ! k = Sleep 1 # RunsGet thread_id (run_id ((run0 # pre) ! k))
             # GetLastMessageByRole thread_id # map Console out
             @ [Console (status_line ((pre @ [t]) ! k) (Suc k))]
           \<and> (\<forall>l\<in>set out. \<not> is_heartbeat (Console l))"
    unfolding assms(6) by auto
  have s': "\<forall>k<N. \<exists>out.
           ticks ! k = Sleep 1 # RunsGet thread_id (run_id ((run0 # pre) ! k))
             # GetLastMessageByRole thread_id # map Console out
             @ [Console (status_line ((pre @ [t]) ! k) (Suc k))]"
    using s by blast
  have "N - 1 < N" "Suc (N - 1) = N" "(run0 # pre) ! (N - 1) = last (run0 # pre)"
    "(pre @ [t]) ! (N - 1) = t"
    unfolding assms(6) by (simp_all add: last_conv_nth nth_append)
  with s' have "\<exists>out.
           ticks ! (N - 1) = Sleep 1 # RunsGet thread_id (run_id (last (run0 # pre)))
             # GetLastMessageByRole thread_id # map Console out @ [Console (status_line t N)]"
    by metis
  with r n s' show ?thesis unfolding l by blast
qed

theorem loop_ends_with_terminal_tick_witness:
  "\<exists>seen ticks out.
     poll_loop (lit ''th'') \<lparr>run_id = lit ''r'', status = lit ''queued'', last_error = None\<rparr>
       None 0
       ([\<lparr>run_id = lit ''r'', status = lit ''in_progress'', last_error = None\<rparr>]
        @ \<lparr>run_id = lit ''r'', status = lit ''failed'', last_error = Some (lit ''e'')\<rparr>
        # [\<lparr>run_id = lit ''r'', status = lit ''completed'', last_error = None\<rparr>])
       [None, None, None]
     = Some (\<lparr>run_id = lit ''r'', status = lit ''failed'', last_error = Some (lit ''e'')\<rparr>,
             seen, 2, [None], ticks)
     \<and> length ticks = 2
     \<and> ticks ! 1 = Sleep 1 # RunsGet (lit ''th'') (lit ''r'') # GetLastMessageByRole (lit ''th'')
          # map Console out @ [Console (Plain (lit ''Run status: failed''))]"
proof -
  let ?q = "\<lparr>run_id = lit ''r'', status = lit ''queued'', last_error = None\<rparr>"
  let ?p = "\<lparr>run_id = lit ''r'', status = lit ''in_progress'', last_error = None\<rparr>"
  let ?f = "\<lparr>run_id = lit ''r'', status = lit ''failed'', last_error = Some (lit ''e'')\<rparr>"
  have h1: "poll_loop = poll_loop \<or> poll_loop = poll_loop_async" by simp
  have h2: "loop_condition ?q" by (simp add: loop_condition_def lit_simps)
  have h3: "\<forall>r\<in>set [?p]. loop_condition r" by (simp add: loop_condition_def lit_simps)
  have h4: "\<not> loop_condition ?f" by (simp add: loop_condition_def lit_simps)
  have h5: "length [?p] < length [None :: message option, None, None]" by simp
  have h6: "(2::nat) = Suc (length [?p])" by simp
  from loop_ends_with_terminal_tick [OF h1 h2 h3 h4 h5 h6, of "lit ''th''"
      "[\<lparr>run_id = lit ''r'', status = lit ''completed'', last_error = None\<rparr>]"]
  obtain seen ticks out where
    "poll_loop (lit ''th'') ?q None 0
       ([?p] @ ?f # [\<lparr>run_id = lit ''r'', status = lit ''completed'', last_error = None\<rparr>])
       [None, None, None]
     = Some (?f, seen, 2, drop 2 [None, None, None], ticks)"
    "length ticks = 2"
    "ticks ! (2 - 1) = Sleep 1 # RunsGet (lit ''th'') (run_id (last [?q, ?p]))
          # GetLastMessageByRole (lit ''th'') # map Console out @ [Console (status_line ?f 2)]"
    by blast
  then show ?thesis by (auto simp add: status_line_def lit_simps)
qed

text \<open>
  The claim as stated fails: a run that is queued and is found completed at the first fetch
  still gets, after that fetch, one call of the detector and one status line.
\<close>

theorem terminal_tick_counterexample:
  "poll_loop (lit ''th'') \<lparr>run_id = lit ''r'', status = lit ''queued'', last_error = None\<rparr>
     None 0 [\<lparr>run_id = lit ''r'', status = lit ''completed'', last_error = None\<rparr>] [None]
   = Some (\<lparr>run_id = lit ''r'', status = lit ''completed'', last_error = None\<rparr>, None, 1, [],
       [[Sleep 1, RunsGet (lit ''th'') (lit ''r''), GetLastMessageByRole (lit ''th''),
         Console (Plain (lit ''Run status: completed''))]])"
  by (simp add: poll_loop.simps loop_condition_def fetch_and_print_new_agent_response_def
      status_line_def lit_simps)

text \<open>
  C10. In either script, when the run is neither queued nor in progress right after its
  creation, the loop returns at once: no tick, the count stays 0, no message response is
  consumed and the loop contributes no event. Between the creation of the run and the
  fetch of the final message the script only logs that the run is over (and the error of
  a failed run) and that it fetches the final message.
\<close>

theorem terminal_at_creation:
  assumes "(loop, flow) = (poll_loop, poll_and_summarize) \<or>
           (loop, flow) = (poll_loop_async, poll_and_summarize_async)"
    and "status run0 \<noteq> lit ''queued'' \<and> status run0 \<noteq> lit ''in_progress''"
  shows "loop thread_id run0 None 0 rs ms = Some (run0, None, 0, ms, [])
     \<and> (\<forall>final_message ms'. ms = final_message # ms' \<longrightarrow>
          (\<exists>after.
             flow agent_id thread_id run0 rs ms =
               Some ([RunsCreate thread_id agent_id,
                      Console (Stamped (RunFinished (status run0) (run_id run0)))]
                     @ (if status run0 = lit ''failed''
                        then [Console (Stamped (RunFailed (last_error run0)))] else [])
                     @ [Console (Stamped FetchingFinalMessage), GetLastMessageByRole thread_id]
                     @ after)))"
proof -
  have l: "loop = poll_loop" "flow = poll_and_summarize"
    using assms(1) by (auto simp: poll_loop_async_fun_eq poll_and_summarize_async_eq)
  have n: "\<not> loop_condition run0"
    using assms(2) by (simp add: loop_condition_def)
  have r: "poll_loop thread_id run0 None 0 rs ms = Some (run0, None, 0, ms, [])"
    using n by (rule poll_loop_terminal)
  have "\<exists>after.
             poll_and_summarize agent_id thread_id run0 rs ms =
               Some ([RunsCreate thread_id agent_id,
                      Console (Stamped (RunFinished (status run0) (run_id run0)))]
                     @ (if status run0 = lit ''failed''
                        then [Console (Stamped (RunFailed (last_error run0)))] else [])
                     @ [Console (Stamped FetchingFinalMessage), GetLastMessageByRole thread_id]
                     @ after)"
    if "ms = final_message # ms'" for final_message ms'
    using that by (simp add: poll_and_summarize_def poll_loop_terminal [OF n] terminal_handling_def)
  with r show ?thesis unfolding l by blast
qed

theorem terminal_at_creation_witness:
  "poll_loop_async (lit ''th'')
     \<lparr>run_id = lit ''r'', status = lit ''completed'', last_error = None\<rparr> None 0
     [\<lparr>run_id = lit ''r'', status = lit ''queued'', last_error = None\<rparr>] [None]
   = Some (\<lparr>run_id = lit ''r'', status = lit ''completed'', last_error = None\<rparr>, None, 0,
           [None], [])
   \<and> (\<exists>after.
        poll_and_summarize_async (lit ''ag'') (lit ''th'')
          \<lparr>run_id = lit ''r'', status = lit ''completed'', last_error = None\<rparr>
          [\<lparr>run_id = lit ''r'', status = lit ''queued'', last_error = None\<rparr>] [None]
        = Some ([RunsCreate (lit ''th'') (lit ''ag''),
                 Console (Stamped (RunFinished (lit ''completed'') (lit ''r''))),
                 Console (Stamped FetchingFinalMessage), GetLastMessageByRole (lit ''th'')]
                @ after))"
proof -
  let ?c = "\<lparr>run_id = lit ''r'', status = lit ''completed'', last_error = None\<rparr>"
  have h1: "(poll_loop_async, poll_and_summarize_async) = (poll_loop, poll_and_summarize) \<or>
      (poll_loop_async, poll_and_summarize_async) = (poll_loop_async, poll_and_summarize_async)"
    by simp
  have h2: "status ?c \<noteq> lit ''queued'' \<and> status ?c \<noteq> lit ''in_progress''"
    by (simp add: lit_simps)
  from terminal_at_creation [OF h1 h2, of "lit ''th''"
      "[\<lparr>run_id = lit ''r'', status = lit ''queued'', last_error = None\<rparr>]" "[None]" "lit ''ag''"]
  show ?thesis by (simp add: lit_simps)
qed

text \<open>
  C5. In either script, for a run that ended with status \<^verbatim>\<open>failed\<close>: the handling after
  the loop logs the end of the run and \<^verbatim>\<open>run.last_error\<close>, fetches the last agent message,
  and, when there is none, writes no file and goes on to delete the agent; when there is
  one, the summary is created before the agent is deleted. Whenever the loop ends on such
  a run and the final fetch finds no message, the whole script returns with the events of
  the loop followed by exactly these.
\<close>

theorem failed_run_is_handled:
  assumes "(loop, flow, handling) = (poll_loop, poll_and_summarize, terminal_handling) \<or>
           (loop, flow, handling) =
             (poll_loop_async, poll_and_summarize_async, terminal_handling_async)"
    and "status run = lit ''failed''"
  shows "handling agent_id thread_id run None =
           [Console (Stamped (RunFinished (lit ''failed'') (run_id run))),
            Console (Stamped (RunFailed (last_error run))),
            Console (Stamped FetchingFinalMessage), GetLastMessageByRole thread_id,
            DeleteAgent agent_id, Console (Stamped AgentDeleted)]
     \<and> (\<forall>m. handling agent_id thread_id run (Some m) =
           [Console (Stamped (RunFinished (lit ''failed'') (run_id run))),
            Console (Stamped (RunFailed (last_error run))),
            Console (Stamped FetchingFinalMessage), GetLastMessageByRole thread_id,
            Console (Stamped CreatingSummary)]
           @ create_research_summary (Some m) (lit ''research_summary.md'')
           @ [DeleteAgent agent_id, Console (Stamped AgentDeleted)])
     \<and> (\<forall>run0 rs ms seen n ms' ticks.
           loop thread_id run0 None 0 rs ms = Some (run, seen, n, None # ms', ticks) \<longrightarrow>
           flow agent_id thread_id run0 rs ms =
             Some (RunsCreate thread_id agent_id # concat ticks
                   @ handling agent_id thread_id run None))"
proof -
  have l: "loop = poll_loop" "flow = poll_and_summarize" "handling = terminal_handling"
    using assms(1)
    by (auto simp: poll_loop_async_fun_eq poll_and_summarize_async_eq terminal_handling_async_eq)
  show ?thesis
    unfolding l using assms(2) by (simp add: terminal_handling_def poll_and_summarize_def)
qed

theorem failed_run_is_handled_witness:
  "poll_and_summarize (lit ''ag'') (lit ''th'')
     \<lparr>run_id = lit ''r'', status = lit ''queued'', last_error = None\<rparr>
     [\<lparr>run_id = lit ''r'', status = lit ''failed'', last_error = Some (lit ''e'')\<rparr>] [None, None]
   = Some [RunsCreate (lit ''th'') (lit ''ag''),
           Sleep 1, RunsGet (lit ''th'') (lit ''r''), GetLastMessageByRole (lit ''th''),
           Console (Plain (lit ''Run status: failed'')),
           Console (Stamped (RunFinished (lit ''failed'') (lit ''r''))),
           Console (Stamped (RunFailed (Some (lit ''e'')))),
           Console (Stamped FetchingFinalMessage), GetLastMessageByRole (lit ''th''),
           DeleteAgent (lit ''ag''), Console (Stamped AgentDeleted)]"
proof -
  let ?q = "\<lparr>run_id = lit ''r'', status = lit ''queued'', last_error = None\<rparr>"
  let ?f = "\<lparr>run_id = lit ''r'', status = lit ''failed'', last_error = Some (lit ''e'')\<rparr>"
  have h1: "(poll_loop, poll_and_summarize, terminal_handling) =
        (poll_loop, poll_and_summarize, terminal_handling) \<or>
      (poll_loop, poll_and_summarize, terminal_handling) =
        (poll_loop_async, poll_and_summarize_async, terminal_handling_async)"
    by simp
  have h2: "status ?f = lit ''failed''" by simp
  have h3: "poll_loop (lit ''th'') ?q None 0 [?f] [None, None] =
      Some (?f, None, 1, None # [],
        [[Sleep 1, RunsGet (lit ''th'') (lit ''r''), GetLastMessageByRole (lit ''th''),
          Console (Plain (lit ''Run status: failed''))]])"
    by (simp add: poll_loop.simps loop_condition_def fetch_and_print_new_agent_response_def
        status_line_def lit_simps)
  from failed_run_is_handled [OF h1 h2, of "lit ''ag''" "lit ''th''"] h3
  have "poll_and_summarize (lit ''ag'') (lit ''th'') ?q [?f] [None, None] =
      Some (RunsCreate (lit ''th'') (lit ''ag'')
        # concat [[Sleep 1, RunsGet (lit ''th'') (lit ''r''), GetLastMessageByRole (lit ''th''),
          Console (Plain (lit ''Run status: failed''))]]
        @ [Console (Stamped (RunFinished (lit ''failed'') (run_id ?f))),
            Console (Stamped (RunFailed (last_error ?f))),
            Console (Stamped FetchingFinalMessage), GetLastMessageByRole (lit ''th''),
            DeleteAgent (lit ''ag''), Console (Stamped AgentDeleted)])"
    by metis
  then show ?thesis by simp
qed


section \<open>The two scripts compared\<close>

text \<open>
  C8. For every run and every sequence of remote responses (the statuses of the run and
  the agent messages fetched), the sequence from the creation of the run to the end is
  the same in the two scripts: it returns in both or in neither, with the same events in
  the same order, hence the same console output, the same file with the same content
  and the same calls to the remote service with the same arguments. The same holds of
  its parts: the loop, the detector, the terminal handling and the summary writer. The
  example after it is a run that is queued, then in progress, then completed, with an
  agent message that appears at the tick of completion.
\<close>

theorem sync_async_same_behaviour:
  "poll_and_summarize_async agent_id thread_id run0 rs ms =
     poll_and_summarize agent_id thread_id run0 rs ms
   \<and> map_option prints (poll_and_summarize_async agent_id thread_id run0 rs ms) =
       map_option prints (poll_and_summarize agent_id thread_id run0 rs ms)
   \<and> map_option file_writes (poll_and_summarize_async agent_id thread_id run0 rs ms) =
       map_option file_writes (poll_and_summarize agent_id thread_id run0 rs ms)
   \<and> map_option collaborator_calls (poll_and_summarize_async agent_id thread_id run0 rs ms) =
       map_option collaborator_calls (poll_and_summarize agent_id thread_id run0 rs ms)
   \<and> poll_loop_async thread_id run last_message_id status_count rs ms =
       poll_loop thread_id run last_message_id status_count rs ms
   \<and> fetch_and_print_new_agent_response_async thread_id response last_message_id =
       fetch_and_print_new_agent_response thread_id response last_message_id
   \<and> terminal_handling_async agent_id thread_id run final_message =
       terminal_handling agent_id thread_id run final_message
   \<and> create_research_summary_async message filepath =
       create_research_summary message filepath"
  by (simp add: poll_and_summarize_async_eq poll_loop_async_eq detector_async_eq
      terminal_handling_async_eq create_research_summary_async_eq)

theorem sync_async_same_behaviour_witness:
  "poll_and_summarize_async (lit ''ag'') (lit ''th'')
     \<lparr>run_id = lit ''r'', status = lit ''queued'', last_error = None\<rparr>
     [\<lparr>run_id = lit ''r'', status = lit ''in_progress'', last_error = None\<rparr>,
      \<lparr>run_id = lit ''r'', status = lit ''completed'', last_error = None\<rparr>]
     [None,
      Some \<lparr>msg_id = lit ''m1'', text_messages = [32 # lit ''a''],
            url_citation_annotations = [\<lparr>url = lit ''u'', title = Some (lit ''t'')\<rparr>]\<rparr>,
      Some \<lparr>msg_id = lit ''m1'', text_messages = [32 # lit ''a''],
            url_citation_annotations = [\<lparr>url = lit ''u'', title = Some (lit ''t'')\<rparr>]\<rparr>]
   = Some
      [RunsCreate (lit ''th'') (lit ''ag''),
       Sleep 1, RunsGet (lit ''th'') (lit ''r''), GetLastMessageByRole (lit ''th''),
       Console (Plain (lit ''Run status: in_progress'')),
       Sleep 1, RunsGet (lit ''th'') (lit ''r''), GetLastMessageByRole (lit ''th''),
       Console (Stamped NewAgentResponse),
       Console (Plain (10 # lit ''Agent response:'')),
       Console (Plain (32 # lit ''a'')),
       Console (Plain (lit ''URL Citation: [t](u)'')),
       Console (Plain (lit ''Run status: completed'')),
       Console (Stamped (RunFinished (lit ''completed'') (lit ''r''))),
       Console (Stamped FetchingFinalMessage), GetLastMessageByRole (lit ''th''),
       Console (Stamped CreatingSummary),
       FileWrite (lit ''research_summary.md'')
         (lit ''a'' @ [10, 10] @ lit ''## References'' @ [10] @ lit ''- [t](u)'' @ [10]),
       Console (Plain (lit ''Research summary written to '' @ [39]
                        @ lit ''research_summary.md'' @ [39, 46])),
       DeleteAgent (lit ''ag''), Console (Stamped AgentDeleted)]"
proof -
  define m where "m = \<lparr>msg_id = lit ''m1'', text_messages = [32 # lit ''a''],
            url_citation_annotations = [\<lparr>url = lit ''u'', title = Some (lit ''t'')\<rparr>]\<rparr>"
  define q where "q = \<lparr>run_id = lit ''r'', status = lit ''queued'', last_error = None\<rparr>"
  define p where "p = \<lparr>run_id = lit ''r'', status = lit ''in_progress'', last_error = None\<rparr>"
  define c where "c = \<lparr>run_id = lit ''r'', status = lit ''completed'', last_error = None\<rparr>"
  have lc: "loop_condition q" "loop_condition p" "\<not> loop_condition c"
    by (simp_all add: q_def p_def c_def loop_condition_def lit_simps)
  have d1: "fetch_and_print_new_agent_response (lit ''th'') None None =
      (None, [GetLastMessageByRole (lit ''th'')])"
    by (simp add: fetch_and_print_new_agent_response_def)
  have d2: "fetch_and_print_new_agent_response (lit ''th'') (Some m) None =
      (Some (lit ''m1''),
       [GetLastMessageByRole (lit ''th''), Console (Stamped NewAgentResponse),
        Console (Plain (10 # lit ''Agent response:'')), Console (Plain (32 # lit ''a'')),
        Console (Plain (lit ''URL Citation: [t](u)''))])"
    by (simp add: fetch_and_print_new_agent_response_def m_def citation_line_def lit_simps)
  have sl: "status_line p (Suc 0) = Plain (lit ''Run status: in_progress'')"
    "status_line c (Suc (Suc 0)) = Plain (lit ''Run status: completed'')"
    by (simp_all add: status_line_def p_def c_def lit_simps)
  have l: "poll_loop (lit ''th'') q None 0 [p, c] [None, Some m, Some m] =
      Some (c, Some (lit ''m1''), 2, [Some m],
        [[Sleep 1, RunsGet (lit ''th'') (run_id q), GetLastMessageByRole (lit ''th''),
          Console (Plain (lit ''Run status: in_progress''))],
         [Sleep 1, RunsGet (lit ''th'') (run_id p), GetLastMessageByRole (lit ''th''),
          Console (Stamped NewAgentResponse),
          Console (Plain (10 # lit ''Agent response:'')), Console (Plain (32 # lit ''a'')),
          Console (Plain (lit ''URL Citation: [t](u)'')),
          Console (Plain (lit ''Run status: completed''))]])"
    by (simp add: poll_loop_step lc poll_loop_terminal d1 d2 sl)
  have w: "create_research_summary (Some m) (lit ''research_summary.md'') =
      [FileWrite (lit ''research_summary.md'')
         (lit ''a'' @ [10, 10] @ lit ''## References'' @ [10] @ lit ''- [t](u)'' @ [10]),
       Console (Plain (lit ''Research summary written to '' @ [39]
                        @ lit ''research_summary.md'' @ [39, 46]))]"
    by (simp add: create_research_summary_def summary_writes_def text_summary_def m_def
        strip_def isspace_def lit_simps Let_def)
  have t: "terminal_handling (lit ''ag'') (lit ''th'') c (Some m) =
      [Console (Stamped (RunFinished (lit ''completed'') (lit ''r''))),
       Console (Stamped FetchingFinalMessage), GetLastMessageByRole (lit ''th''),
       Console (Stamped CreatingSummary)]
      @ create_research_summary (Some m) (lit ''research_summary.md'')
      @ [DeleteAgent (lit ''ag''), Console (Stamped AgentDeleted)]"
    by (simp add: terminal_handling_def c_def lit_simps)
  have "poll_and_summarize (lit ''ag'') (lit ''th'') q [p, c] [None, Some m, Some m] =
      Some (RunsCreate (lit ''th'') (lit ''ag'')
        # concat [[Sleep 1, RunsGet (lit ''th'') (run_id q), GetLastMessageByRole (lit ''th''),
          Console (Plain (lit ''Run status: in_progress''))],
         [Sleep 1, RunsGet (lit ''th'') (run_id p), GetLastMessageByRole (lit ''th''),
          Console (Stamped NewAgentResponse),
          Console (Plain (10 # lit ''Agent response:'')), Console (Plain (32 # lit ''a'')),
          Console (Plain (lit ''URL Citation: [t](u)'')),
          Console (Plain (lit ''Run status: completed''))]]
        @ terminal_handling (lit ''ag'') (lit ''th'') c (Some m))"
    by (simp add: poll_and_summarize_def l)
  then have "poll_and_summarize_async (lit ''ag'') (lit ''th'') q [p, c] [None, Some m, Some m] =
      Some (RunsCreate (lit ''th'') (lit ''ag'')
        # concat [[Sleep 1, RunsGet (lit ''th'') (run_id q), GetLastMessageByRole (lit ''th''),
          Console (Plain (lit ''Run status: in_progress''))],
         [Sleep 1, RunsGet (lit ''th'') (run_id p), GetLastMessageByRole (lit ''th''),
          Console (Stamped NewAgentResponse),
          Console (Plain (10 # lit ''Agent response:'')), Console (Plain (32 # lit ''a'')),
          Console (Plain (lit ''URL Citation: [t](u)'')),
          Console (Plain (lit ''Run status: completed''))]]
        @ terminal_handling (lit ''ag'') (lit ''th'') c (Some m))"
    using sync_async_same_behaviour [of "lit ''ag''" "lit ''th''" q "[p, c]"
        "[None, Some m, Some m]"]
    by (simp only:)
  then show ?thesis
    unfolding t w by (simp add: q_def p_def c_def m_def)
qed

end
